theory Spec2Isabelle
  imports Complex_Main "HOL-Library.Sublist"
begin

section \<open>JavaScript values used by the screens\<close>

text \<open>
  Strings are lists of code units, so \<^term>\<open>length\<close> is the \<^verbatim>\<open>.length\<close> of the source and
  \<^verbatim>\<open>===\<close> on strings is equality of lists. The forms, the timeline and the analytics
  compare, measure and search their strings as they are; for them a \<^typ>\<open>char\<close> stands for
  one UTF-16 code unit below 256 (the Latin-1 range). The patients screen lower-cases its
  strings, which depends on characters beyond Latin-1; its strings are lists of all UTF-16
  code units (see below).
\<close>

subsection \<open>Strings\<close>

text \<open>White space as \<^verbatim>\<open>\s\<close> and \<^verbatim>\<open>trim\<close> read it, in the Latin-1 range: TAB, LF, VT, FF,
  CR, SPACE and NO-BREAK SPACE.\<close>

definition is_whitespace :: "char \<Rightarrow> bool" where
  "is_whitespace c = (of_char c \<in> {9, 10, 11, 12, 13, 32, 160 :: nat})"

text \<open>\<^verbatim>\<open>s.trim()\<close>\<close>

definition trim :: "string \<Rightarrow> string" where
  "trim s = rev (dropWhile is_whitespace (rev (dropWhile is_whitespace s)))"

text \<open>\<^verbatim>\<open>s.includes(t)\<close>: \<open>t\<close> occurs in \<open>s\<close> at some position.\<close>

fun includes_str :: "'a list \<Rightarrow> 'a list \<Rightarrow> bool" where
  "includes_str [] t = (t = [])"
| "includes_str (c # s) t = (prefix t (c # s) \<or> includes_str s t)"

subsection \<open>UTF-16 strings and lower-casing\<close>

text \<open>A string of the patients screen: its UTF-16 code units, numbers below \<open>0x10000\<close>.
  \<open>js\<close> is a literal of the source whose characters are all in Latin-1.\<close>

type_synonym utf16 = "nat list"

definition js :: "string \<Rightarrow> utf16" where
  "js s = map of_char s"

definition is_high_surrogate :: "nat \<Rightarrow> bool" where
  "is_high_surrogate c = (0xD800 \<le> c \<and> c \<le> 0xDBFF)"

definition is_low_surrogate :: "nat \<Rightarrow> bool" where
  "is_low_surrogate c = (0xDC00 \<le> c \<and> c \<le> 0xDFFF)"

text \<open>The code points of a string: a high surrogate followed by a low surrogate is one code
  point above \<open>0xFFFF\<close>, every other code unit is a code point by itself.\<close>

fun code_points :: "utf16 \<Rightarrow> nat list" where
  "code_points (hi # lo # rest) =
     (if is_high_surrogate hi \<and> is_low_surrogate lo
      then (0x10000 + (hi - 0xD800) * 0x400 + (lo - 0xDC00)) # code_points rest
      else hi # code_points (lo # rest))"
| "code_points s = s"

text \<open>The code units of a code point, and of a list of code points.\<close>

definition code_units_of :: "nat \<Rightarrow> utf16" where
  "code_units_of cp =
     (if cp < 0x10000 then [cp]
      else [0xD800 + (cp - 0x10000) div 0x400, 0xDC00 + (cp - 0x10000) mod 0x400])"

definition code_units :: "nat list \<Rightarrow> utf16" where
  "code_units cps = concat (map code_units_of cps)"

text \<open>
  \<^verbatim>\<open>s.toLowerCase()\<close> maps the code points of \<open>s\<close> by the default case conversion of the
  Unicode standard, whatever the locale. The tables it reads belong to the runtime, not to
  the repository; they are a parameter: the simple lower-case mapping of a code point, and
  the properties Cased and Case_Ignorable.
\<close>

record unicode_data =
  simple_lower :: "nat \<Rightarrow> nat"
  cased :: "nat \<Rightarrow> bool"
  case_ignorable :: "nat \<Rightarrow> bool"

text \<open>Walking away from a code point: zero or more case-ignorable code points, then a cased
  one.\<close>

fun reaches_cased :: "unicode_data \<Rightarrow> nat list \<Rightarrow> bool" where
  "reaches_cased u [] = False"
| "reaches_cased u (c # cs) = (cased u c \<or> (case_ignorable u c \<and> reaches_cased u cs))"

text \<open>The condition Final_Sigma of the standard: the code point is preceded by a cased
  letter and then zero or more case-ignorable code points, and is not followed by zero or
  more case-ignorable code points and then a cased letter. \<open>preceding\<close> holds the preceding code
  points, the nearest first.\<close>

definition final_sigma :: "unicode_data \<Rightarrow> nat list \<Rightarrow> nat list \<Rightarrow> bool" where
  "final_sigma u preceding following = (reaches_cased u preceding \<and> \<not> reaches_cased u following)"

text \<open>The lower-case mapping of one code point in its context. Two code points do not take
  their simple mapping: capital sigma U+03A3 becomes final small sigma U+03C2 where the
  condition holds, and capital I with dot above U+0130 becomes the two code points U+0069
  U+0307.\<close>

definition lower_mapping :: "unicode_data \<Rightarrow> nat list \<Rightarrow> nat \<Rightarrow> nat list \<Rightarrow> nat list" where
  "lower_mapping u preceding c following =
     (if c = 0x3A3 \<and> final_sigma u preceding following then [0x3C2]
      else if c = 0x130 then [0x69, 0x307]
      else [simple_lower u c])"

fun lower_points :: "unicode_data \<Rightarrow> nat list \<Rightarrow> nat list \<Rightarrow> nat list" where
  "lower_points u preceding [] = []"
| "lower_points u preceding (c # following) =
     lower_mapping u preceding c following @ lower_points u (c # preceding) following"

text \<open>\<^verbatim>\<open>s.toLowerCase()\<close>\<close>

definition toLowerCase :: "unicode_data \<Rightarrow> utf16 \<Rightarrow> utf16" where
  "toLowerCase u s = code_units (lower_points u [] (code_points s))"

subsection \<open>The regular expressions of the forms\<close>

text \<open>The forms use one pattern, \<^verbatim>\<open>/\S+@\S+\.\S+/\<close>: a sequence of items, each a single
  character or one-or-more of a character class. \<^verbatim>\<open>test\<close> asks for a match starting
  anywhere in the string.\<close>

datatype rx_atom = NonSpace | Lit char

datatype rx_item = Plus rx_atom | One rx_atom

fun atom_matches :: "rx_atom \<Rightarrow> char \<Rightarrow> bool" where
  "atom_matches NonSpace c = (\<not> is_whitespace c)"
| "atom_matches (Lit l) c = (c = l)"

fun match_here :: "rx_item list \<Rightarrow> string \<Rightarrow> bool" where
  "match_here [] s = True"
| "match_here (i # r) [] = False"
| "match_here (One a # r) (c # s) = (atom_matches a c \<and> match_here r s)"
| "match_here (Plus a # r) (c # s) =
     (atom_matches a c \<and> (match_here (Plus a # r) s \<or> match_here r s))"

fun regex_test :: "rx_item list \<Rightarrow> string \<Rightarrow> bool" where
  "regex_test r [] = match_here r []"
| "regex_test r (c # s) = (match_here r (c # s) \<or> regex_test r s)"

definition email_regex :: "rx_item list" where
  "email_regex = [Plus NonSpace, One (Lit CHR ''@''), Plus NonSpace, One (Lit CHR ''.''), Plus NonSpace]"

subsection \<open>Dates\<close>

text \<open>The time value of a \<^verbatim>\<open>Date\<close> is a whole number of milliseconds, or \<^verbatim>\<open>NaN\<close> for
  an invalid date (\<^term>\<open>None\<close>). \<^verbatim>\<open>new Date(s)\<close> is the runtime's parser, a parameter
  \<open>parse\<close> of the functions below; \<^verbatim>\<open>new Date()\<close> is the current time \<open>now\<close>, always valid.
  \<^verbatim>\<open>a < b\<close> on dates compares the time values and is false when either is \<^verbatim>\<open>NaN\<close>.\<close>

type_synonym time_value = "int option"

fun date_less :: "time_value \<Rightarrow> time_value \<Rightarrow> bool" where
  "date_less (Some a) (Some b) = (a < b)"
| "date_less _ _ = False"

section \<open>Timeline screen\<close>

text \<open>A row of \<^verbatim>\<open>recovery_tasks\<close>.\<close>

record recovery_task =
  task_id :: string
  surgery_plan_id :: string
  task_patient_id :: string
  title :: string
  description :: string
  due_date :: string
  completed :: bool
  task_type :: string
  task_created_at :: string

datatype status_icon = CheckCircle | AlertCircle | Circle

definition getTaskStatusIcon :: "(string \<Rightarrow> time_value) \<Rightarrow> int \<Rightarrow> bool \<Rightarrow> string \<Rightarrow> status_icon" where
  "getTaskStatusIcon parse now completed' dueDate =
     (if completed' then CheckCircle
      else let due = parse dueDate in
        if date_less due (Some now) then AlertCircle else Circle)"

text \<open>The badge under a task of the recovery timeline: the conditional of the render, with
  the text of the badge it shows.\<close>

definition task_badge :: "(string \<Rightarrow> time_value) \<Rightarrow> int \<Rightarrow> recovery_task \<Rightarrow> string" where
  "task_badge parse now task =
     (if completed task then ''Completed''
      else if date_less (parse (due_date task)) (Some now) then ''Overdue''
      else ''Pending'')"

section \<open>Analytics screen\<close>

subsection \<open>Numbers\<close>

text \<open>
  A JavaScript number is an IEEE 754 double: a rational with a significand of 53 bits.
  Division and multiplication return the exact result rounded to the nearest double, ties
  to the even significand. The finite doubles are modelled as the rationals they denote;
  \<open>to_double\<close> is the rounding. Results of magnitude \<open>2 ^ 1024\<close> and above (infinities) are
  not modelled: the analytics only divide a count by a larger count and multiply by 100.
  The counts themselves are lengths of arrays, whole numbers below \<open>2 ^ 32\<close>, which are
  doubles.
\<close>

text \<open>\<open>ilog2 n\<close> is the position of the highest bit of \<open>n\<close>.\<close>

fun ilog2 :: "nat \<Rightarrow> nat" where
  "ilog2 n = (if n < 2 then 0 else Suc (ilog2 (n div 2)))"

text \<open>The exponent \<open>e\<close> of a positive rational \<open>x\<close>: \<open>2 ^ e \<le> x < 2 ^ (e + 1)\<close>.\<close>

definition exponent :: "rat \<Rightarrow> int" where
  "exponent x =
     (if 1 \<le> x then int (ilog2 (nat \<lfloor>x\<rfloor>))
      else let n = nat \<lceil>1 / x\<rceil> in
        if n \<le> 1 then 0 else - int (Suc (ilog2 (n - 1))))"

text \<open>Rounding to the nearest integer, ties to even.\<close>

definition round_half_even :: "rat \<Rightarrow> int" where
  "round_half_even m =
     (let f = \<lfloor>m\<rfloor>; r = m - of_int f in
      if r < 1 / 2 then f
      else if 1 / 2 < r then f + 1
      else if even f then f else f + 1)"

text \<open>The distance between neighbouring doubles at \<open>x\<close>; exponents below \<open>-1022\<close> are
  subnormal and share the spacing \<open>2 ^ -1074\<close>.\<close>

definition ulp :: "rat \<Rightarrow> rat" where
  "ulp x = 2 powi (max (exponent \<bar>x\<bar>) (- 1022) - 52)"

definition to_double :: "rat \<Rightarrow> rat" where
  "to_double x = (if x = 0 then 0 else sgn x * of_int (round_half_even (\<bar>x\<bar> / ulp x)) * ulp x)"

text \<open>\<^verbatim>\<open>a / b\<close> for \<open>b \<noteq> 0\<close>, and \<^verbatim>\<open>a * b\<close>.\<close>

definition num_div :: "rat \<Rightarrow> rat \<Rightarrow> rat" where
  "num_div a b = to_double (a / b)"

definition num_mul :: "rat \<Rightarrow> rat \<Rightarrow> rat" where
  "num_mul a b = to_double (a * b)"

text \<open>\<^verbatim>\<open>Math.round(x)\<close>: the integer nearest to \<open>x\<close>, the larger one on a tie.\<close>

definition Math_round :: "rat \<Rightarrow> int" where
  "Math_round x = \<lfloor>x + 1 / 2\<rfloor>"

subsection \<open>State of the screen\<close>

text \<open>An entry of one of the grouped lists: \<^verbatim>\<open>{ status, count }\<close>, \<^verbatim>\<open>{ region, count }\<close> or
  \<^verbatim>\<open>{ month, count }\<close>; \<open>key\<close> is the first property.\<close>

record group_count =
  key :: string
  count :: nat

record analytics_data =
  totalPatients :: nat
  activePlans :: nat
  completedTasks :: nat
  overdueTasks :: nat
  patientsByRegion :: "group_count list"
  plansByStatus :: "group_count list"
  taskCompletionRate :: int
  monthlyRegistrations :: "group_count list"

text \<open>The rows the queries return: the selected columns only.\<close>

record plan_row =
  plan_status :: string

record task_row =
  row_completed :: bool
  row_due_date :: string

record region_row =
  row_region :: string

record created_row =
  row_created_at :: string

text \<open>The state the screen starts with.\<close>

definition initial_analytics :: analytics_data where
  "initial_analytics =
     \<lparr>totalPatients = 0, activePlans = 0, completedTasks = 0, overdueTasks = 0,
      patientsByRegion = [], plansByStatus = [], taskCompletionRate = 0, monthlyRegistrations = []\<rparr>"

subsection \<open>Grouping\<close>

text \<open>\<^verbatim>\<open>existing.count++\<close> on the entry that \<^verbatim>\<open>acc.find\<close> returned: the first entry of the list
  that satisfies the predicate is updated in place.\<close>

fun increment_found :: "(group_count \<Rightarrow> bool) \<Rightarrow> group_count list \<Rightarrow> group_count list" where
  "increment_found P [] = []"
| "increment_found P (item # rest) =
     (if P item then item\<lparr>count := count item + 1\<rparr> # rest else item # increment_found P rest)"

text \<open>The callback of the three \<^verbatim>\<open>reduce\<close> calls, which differ in the key of the row only.\<close>

definition count_step :: "('row \<Rightarrow> string) \<Rightarrow> group_count list \<Rightarrow> 'row \<Rightarrow> group_count list" where
  "count_step key_of acc row =
     (case find (\<lambda>item. key item = key_of row) acc of
        Some existing \<Rightarrow> increment_found (\<lambda>item. key item = key_of row) acc
      | None \<Rightarrow> acc @ [\<lparr>key = key_of row, count = 1\<rparr>])"

text \<open>\<^verbatim>\<open>rows.reduce(callback, [])\<close>\<close>

definition group_rows :: "('row \<Rightarrow> string) \<Rightarrow> 'row list \<Rightarrow> group_count list" where
  "group_rows key_of rows = foldl (count_step key_of) [] rows"

text \<open>The count a grouped list holds for a key, summed over every entry with that key; used
  to state what one step of the grouping adds.\<close>

definition tally :: "group_count list \<Rightarrow> string \<Rightarrow> nat" where
  "tally acc k = sum_list (map count (filter (\<lambda>item. key item = k) acc))"

subsection \<open>Loaders\<close>

text \<open>Each loader awaits a query and, when it returned rows (\<^term>\<open>Some\<close>), updates the state.\<close>

definition loadPlanStats :: "plan_row list option \<Rightarrow> analytics_data \<Rightarrow> analytics_data" where
  "loadPlanStats plans prev =
     (case plans of
        None \<Rightarrow> prev
      | Some plans \<Rightarrow>
          prev\<lparr>activePlans :=
                 length (filter (\<lambda>p. plan_status p \<in> set [''planning'', ''pre_op'', ''surgery'', ''post_op'']) plans),
               plansByStatus := group_rows plan_status plans\<rparr>)"

definition loadTaskStats ::
  "(string \<Rightarrow> time_value) \<Rightarrow> int \<Rightarrow> task_row list option \<Rightarrow> analytics_data \<Rightarrow> analytics_data" where
  "loadTaskStats parse now tasks prev =
     (case tasks of
        None \<Rightarrow> prev
      | Some tasks \<Rightarrow>
          let completedTasks' = length (filter row_completed tasks);
              overdueTasks' = length (filter (\<lambda>t. \<not> row_completed t \<and> date_less (parse (row_due_date t)) (Some now)) tasks);
              taskCompletionRate' =
                (if length tasks > 0
                 then Math_round (num_mul (num_div (of_nat completedTasks') (of_nat (length tasks))) 100)
                 else 0)
          in prev\<lparr>completedTasks := completedTasks',
                  overdueTasks := overdueTasks',
                  taskCompletionRate := taskCompletionRate'\<rparr>)"

definition loadRegionStats :: "region_row list option \<Rightarrow> analytics_data \<Rightarrow> analytics_data" where
  "loadRegionStats profiles prev =
     (case profiles of
        None \<Rightarrow> prev
      | Some profiles \<Rightarrow> prev\<lparr>patientsByRegion := group_rows row_region profiles\<rparr>)"

text \<open>\<open>month_label\<close> is the runtime's \<^verbatim>\<open>new Date(s).toLocaleDateString('en-US', { year:
  'numeric', month: 'short' })\<close>.\<close>

definition loadMonthlyStats ::
  "(string \<Rightarrow> string) \<Rightarrow> created_row list option \<Rightarrow> analytics_data \<Rightarrow> analytics_data" where
  "loadMonthlyStats month_label profiles prev =
     (case profiles of
        None \<Rightarrow> prev
      | Some profiles \<Rightarrow>
          prev\<lparr>monthlyRegistrations := group_rows (\<lambda>profile. month_label (row_created_at profile)) profiles\<rparr>)"

section \<open>Patients screen\<close>

text \<open>Rows of \<^verbatim>\<open>surgery_plans\<close> and \<^verbatim>\<open>profiles\<close>; a patient of the list is a profile with
  its plans, when the query joined them.\<close>

record surgery_plan =
  plan_id :: utf16
  plan_patient_id :: utf16
  procedure_type :: utf16
  clinic_name :: utf16
  surgery_date :: utf16
  status :: utf16
  plan_created_at :: utf16
  plan_updated_at :: utf16

record profile =
  profile_id :: utf16
  email :: utf16
  full_name :: utf16
  role :: utf16
  region :: utf16
  created_at :: utf16
  updated_at :: utf16

record patient_with_plan = profile +
  surgery_plans :: "surgery_plan list option"

record patients_screen =
  patients :: "patient_with_plan list"
  filteredPatients :: "patient_with_plan list"
  searchQuery :: utf16
  selectedRegion :: utf16

definition filterPatients :: "unicode_data \<Rightarrow> patients_screen \<Rightarrow> patients_screen" where
  "filterPatients u st =
     (let filtered = patients st;
          filtered =
            (if searchQuery st \<noteq> []
             then filter (\<lambda>patient.
                      includes_str (toLowerCase u (full_name patient)) (toLowerCase u (searchQuery st))
                      \<or> includes_str (toLowerCase u (email patient)) (toLowerCase u (searchQuery st)))
                    filtered
             else filtered);
          filtered =
            (if selectedRegion st \<noteq> js ''all''
             then filter (\<lambda>patient. region patient = selectedRegion st) filtered
             else filtered)
      in st\<lparr>filteredPatients := filtered\<rparr>)"

definition initial_patients_screen :: patients_screen where
  "initial_patients_screen =
     \<lparr>patients = [], filteredPatients = [], searchQuery = [], selectedRegion = js ''all''\<rparr>"





section \<open>Sign-in and sign-up screens\<close>

text \<open>
  The error an authentication call resolves with carries a message, which may be missing.
  A call either resolves, with an error or with none, or it throws. The calls themselves
  (\<^verbatim>\<open>signIn\<close>, \<^verbatim>\<open>signUp\<close> of the session holder) are parameters: they answer for the
  remote identity provider.
\<close>

datatype auth_error = AuthError (message: "string option")

datatype auth_outcome = Resolved "auth_error option" | Thrown

text \<open>\<^verbatim>\<open>error.message?.includes(phrase)\<close>: false when the message is missing.\<close>

fun message_includes :: "auth_error \<Rightarrow> string \<Rightarrow> bool" where
  "message_includes (AuthError None) phrase = False"
| "message_includes (AuthError (Some m)) phrase = includes_str m phrase"

text \<open>\<^verbatim>\<open>error.message || fallback\<close>: the fallback when the message is missing or empty.\<close>

fun message_or :: "auth_error \<Rightarrow> string \<Rightarrow> string" where
  "message_or (AuthError None) fallback = fallback"
| "message_or (AuthError (Some m)) fallback = (if m = [] then fallback else m)"

subsection \<open>Sign in\<close>

record signin_errors =
  email_error :: "string option"
  password_error :: "string option"
  general_error :: "string option"

definition no_signin_errors :: signin_errors where
  "no_signin_errors = \<lparr>email_error = None, password_error = None, general_error = None\<rparr>"

record signin_screen =
  signin_email :: string
  signin_password :: string
  signin_loading :: bool
  signin_errors :: signin_errors

definition initial_signin_screen :: signin_screen where
  "initial_signin_screen =
     \<lparr>signin_email = [], signin_password = [], signin_loading = False, signin_errors = no_signin_errors\<rparr>"

text \<open>What a submission did besides updating the state: the calls to the identity provider
  and the route the screen was replaced by.\<close>

record 'call effects =
  calls :: "'call list"
  navigated :: "string option"

text \<open>\<^verbatim>\<open>validateForm\<close> of the sign-in screen: the state with the new errors set, and whether
  the error object has no keys.\<close>

definition signin_validateForm :: "signin_screen \<Rightarrow> signin_screen \<times> bool" where
  "signin_validateForm st =
     (let newErrors = no_signin_errors;
          newErrors =
            (if signin_email st = [] then newErrors\<lparr>email_error := Some ''Email is required''\<rparr>
             else if \<not> regex_test email_regex (signin_email st)
               then newErrors\<lparr>email_error := Some ''Please enter a valid email''\<rparr>
             else newErrors);
          newErrors =
            (if signin_password st = [] then newErrors\<lparr>password_error := Some ''Password is required''\<rparr>
             else newErrors)
      in (st\<lparr>signin_errors := newErrors\<rparr>, newErrors = no_signin_errors))"

text \<open>The message the screen shows for an error the call resolved with.\<close>

definition signin_error_text :: "auth_error \<Rightarrow> string" where
  "signin_error_text error =
     (if message_includes error ''Invalid login credentials'' \<or> message_includes error ''Invalid email or password''
      then ''Invalid email or password. Please try again.''
      else if message_includes error ''Email not confirmed''
      then ''Please check your email and confirm your account before signing in.''
      else message_or error ''Sign in failed. Please try again.'')"

definition handleSignIn ::
  "(string \<Rightarrow> string \<Rightarrow> auth_outcome) \<Rightarrow> signin_screen \<Rightarrow> signin_screen \<times> (string \<times> string) effects" where
  "handleSignIn signIn st =
     (case signin_validateForm st of
        (st, False) \<Rightarrow> (st, \<lparr>calls = [], navigated = None\<rparr>)
      | (st, True) \<Rightarrow>
          let st = st\<lparr>signin_loading := True, signin_errors := no_signin_errors\<rparr>;
              call = (signin_email st, signin_password st)
          in (case signIn (signin_email st) (signin_password st) of
                Resolved (Some error) \<Rightarrow>
                  (st\<lparr>signin_errors := no_signin_errors\<lparr>general_error := Some (signin_error_text error)\<rparr>,
                      signin_loading := False\<rparr>,
                   \<lparr>calls = [call], navigated = None\<rparr>)
              | Resolved None \<Rightarrow>
                  (st\<lparr>signin_loading := False\<rparr>, \<lparr>calls = [call], navigated = Some ''/(tabs)''\<rparr>)
              | Thrown \<Rightarrow>
                  (st\<lparr>signin_errors :=
                        no_signin_errors\<lparr>general_error := Some ''An unexpected error occurred. Please try again.''\<rparr>,
                      signin_loading := False\<rparr>,
                   \<lparr>calls = [call], navigated = None\<rparr>)))"

subsection \<open>Sign up\<close>

record signup_errors =
  signup_email_error :: "string option"
  signup_password_error :: "string option"
  confirmPassword_error :: "string option"
  fullName_error :: "string option"
  signup_general_error :: "string option"

definition no_signup_errors :: signup_errors where
  "no_signup_errors =
     \<lparr>signup_email_error = None, signup_password_error = None, confirmPassword_error = None,
      fullName_error = None, signup_general_error = None\<rparr>"

record signup_screen =
  signup_email :: string
  signup_password :: string
  confirmPassword :: string
  fullName :: string
  signup_loading :: bool
  signup_errors :: signup_errors

definition initial_signup_screen :: signup_screen where
  "initial_signup_screen =
     \<lparr>signup_email = [], signup_password = [], confirmPassword = [], fullName = [],
      signup_loading = False, signup_errors = no_signup_errors\<rparr>"

text \<open>The arguments of a \<^verbatim>\<open>signUp\<close> call: email, password and the profile data.\<close>

record signup_call =
  call_email :: string
  call_password :: string
  call_full_name :: string
  call_role :: string
  call_region :: string

definition signup_validateForm :: "signup_screen \<Rightarrow> signup_screen \<times> bool" where
  "signup_validateForm st =
     (let newErrors = no_signup_errors;
          newErrors =
            (if trim (fullName st) = [] then newErrors\<lparr>fullName_error := Some ''Full name is required''\<rparr>
             else newErrors);
          newErrors =
            (if signup_email st = [] then newErrors\<lparr>signup_email_error := Some ''Email is required''\<rparr>
             else if \<not> regex_test email_regex (signup_email st)
               then newErrors\<lparr>signup_email_error := Some ''Please enter a valid email''\<rparr>
             else newErrors);
          newErrors =
            (if signup_password st = []
               then newErrors\<lparr>signup_password_error := Some ''Password is required''\<rparr>
             else if length (signup_password st) < 8
               then newErrors\<lparr>signup_password_error := Some ''Password must be at least 8 characters''\<rparr>
             else newErrors);
          newErrors =
            (if confirmPassword st = []
               then newErrors\<lparr>confirmPassword_error := Some ''Please confirm your password''\<rparr>
             else if signup_password st \<noteq> confirmPassword st
               then newErrors\<lparr>confirmPassword_error := Some ''Passwords do not match''\<rparr>
             else newErrors)
      in (st\<lparr>signup_errors := newErrors\<rparr>, newErrors = no_signup_errors))"

text \<open>The error object the screen sets for an error the call resolved with.\<close>

definition signup_error_object :: "auth_error \<Rightarrow> signup_errors" where
  "signup_error_object error =
     (if message_includes error ''already registered'' \<or> message_includes error ''already exists''
      then no_signup_errors\<lparr>signup_general_error :=
             Some ''An account with this email already exists. Please sign in instead.''\<rparr>
      else if message_includes error ''Password''
      then no_signup_errors\<lparr>signup_password_error := message error\<rparr>
      else if message_includes error ''Email''
      then no_signup_errors\<lparr>signup_email_error := message error\<rparr>
      else no_signup_errors\<lparr>signup_general_error :=
             Some (message_or error ''Failed to create account. Please try again.'')\<rparr>)"

definition handleSignUp ::
  "(signup_call \<Rightarrow> auth_outcome) \<Rightarrow> signup_screen \<Rightarrow> signup_screen \<times> signup_call effects" where
  "handleSignUp signUp st =
     (case signup_validateForm st of
        (st, False) \<Rightarrow> (st, \<lparr>calls = [], navigated = None\<rparr>)
      | (st, True) \<Rightarrow>
          let st = st\<lparr>signup_loading := True, signup_errors := no_signup_errors\<rparr>;
              call = \<lparr>call_email = signup_email st, call_password = signup_password st,
                      call_full_name = trim (fullName st), call_role = ''patient'', call_region = ''AU''\<rparr>
          in (case signUp call of
                Resolved (Some error) \<Rightarrow>
                  (st\<lparr>signup_errors := signup_error_object error, signup_loading := False\<rparr>,
                   \<lparr>calls = [call], navigated = None\<rparr>)
              | Resolved None \<Rightarrow>
                  (st\<lparr>signup_loading := False\<rparr>, \<lparr>calls = [call], navigated = Some ''/(auth)/onboarding''\<rparr>)
              | Thrown \<Rightarrow>
                  (st\<lparr>signup_errors :=
                        no_signup_errors\<lparr>signup_general_error :=
                          Some ''An unexpected error occurred. Please try again.''\<rparr>,
                      signup_loading := False\<rparr>,
                   \<lparr>calls = [call], navigated = None\<rparr>)))"

section \<open>Sample data\<close>

text \<open>Rows and forms on which the properties below are evaluated.\<close>

definition sample_task :: recovery_task where
  "sample_task =
     \<lparr>task_id = ''t1'', surgery_plan_id = ''s1'', task_patient_id = ''u1'', title = ''Wound check'',
      description = ''Visit the clinic'', due_date = ''2025-03-01'', completed = False,
      task_type = ''appointment'', task_created_at = ''2025-01-01''\<rparr>"

text \<open>A parser for the sample dates: days since the start of 2025, as milliseconds.\<close>

definition sample_parse :: "string \<Rightarrow> time_value" where
  "sample_parse s =
     (if s = ''2025-01-01'' then Some 0
      else if s = ''2025-03-01'' then Some 5097600000
      else None)"

definition done_row :: task_row where
  "done_row = \<lparr>row_completed = True, row_due_date = ''2025-01-01''\<rparr>"

definition open_row :: task_row where
  "open_row = \<lparr>row_completed = False, row_due_date = ''2025-03-01''\<rparr>"

text \<open>Forty tasks, twenty-three of them completed.\<close>

definition sample_tasks :: "task_row list" where
  "sample_tasks = replicate 23 done_row @ replicate 17 open_row"

text \<open>Three tasks, one of them completed.\<close>

definition few_tasks :: "task_row list" where
  "few_tasks = [done_row, open_row, open_row]"

definition sample_plans :: "plan_row list" where
  "sample_plans = [\<lparr>plan_status = ''planning''\<rparr>, \<lparr>plan_status = ''post_op''\<rparr>, \<lparr>plan_status = ''planning''\<rparr>]"

definition sample_regions :: "region_row list" where
  "sample_regions = [\<lparr>row_region = ''AU''\<rparr>, \<lparr>row_region = ''NZ''\<rparr>, \<lparr>row_region = ''AU''\<rparr>, \<lparr>row_region = ''AU''\<rparr>]"

definition sample_registered :: "created_row list" where
  "sample_registered = [\<lparr>row_created_at = ''2025-01-01''\<rparr>, \<lparr>row_created_at = ''2025-03-01''\<rparr>]"

definition sample_month_label :: "string \<Rightarrow> string" where
  "sample_month_label s = (if s = ''2025-01-01'' then ''Jan 2025'' else ''Mar 2025'')"

text \<open>Tables that agree with the Unicode database on Basic Latin and on the Greek letters
  U+0391 to U+03C9: the capital letters A to Z and U+0391 to U+03AB have their small letter
  32 code points above; apostrophe, full stop, colon, circumflex and grave accent are
  case-ignorable.\<close>

definition sample_unicode :: unicode_data where
  "sample_unicode =
     \<lparr>simple_lower =
        (\<lambda>c. if (0x41 \<le> c \<and> c \<le> 0x5A) \<or> (0x391 \<le> c \<and> c \<le> 0x3A1) \<or> (0x3A3 \<le> c \<and> c \<le> 0x3AB)
              then c + 32 else c),
      cased =
        (\<lambda>c. (0x41 \<le> c \<and> c \<le> 0x5A) \<or> (0x61 \<le> c \<and> c \<le> 0x7A)
              \<or> (0x391 \<le> c \<and> c \<le> 0x3A1) \<or> (0x3A3 \<le> c \<and> c \<le> 0x3C9)),
      case_ignorable = (\<lambda>c. c \<in> {0x27, 0x2E, 0x3A, 0x5E, 0x60})\<rparr>"

definition sample_patient :: "utf16 \<Rightarrow> utf16 \<Rightarrow> utf16 \<Rightarrow> patient_with_plan" where
  "sample_patient name mail reg =
     \<lparr>profile_id = mail, email = mail, full_name = name, role = js ''patient'', region = reg,
      created_at = js ''2025-01-01'', updated_at = js ''2025-01-01'', surgery_plans = None\<rparr>"

definition sample_patients_screen :: patients_screen where
  "sample_patients_screen =
     \<lparr>patients = [sample_patient (js ''Ann Lee'') (js ''ann@x.nz'') (js ''NZ''),
                  sample_patient (js ''Bo Chan'') (js ''bo@y.au'') (js ''AU''),
                  sample_patient (js ''Cy Hann'') (js ''cy@z.au'') (js ''AU'')],
      filteredPatients = [], searchQuery = js ''ANN'', selectedRegion = js ''AU''\<rparr>"




definition sample_signin_form :: signin_screen where
  "sample_signin_form = initial_signin_screen\<lparr>signin_email := ''a@b.c'', signin_password := ''secret''\<rparr>"

definition sample_signup_form :: signup_screen where
  "sample_signup_form =
     initial_signup_screen\<lparr>signup_email := ''a@b.c'', signup_password := ''abcdefgh'',
       confirmPassword := ''abcdefgh'', fullName := ''Ann Lee''\<rparr>"

text \<open>An identity provider that accepts every call, and one that answers every sign-in with
  a given error message.\<close>

definition accepts :: "'a \<Rightarrow> auth_outcome" where
  "accepts call = Resolved None"

definition rejects_with :: "string \<Rightarrow> string \<Rightarrow> string \<Rightarrow> auth_outcome" where
  "rejects_with m e p = Resolved (Some (AuthError (Some m)))"

section \<open>Properties of the timeline screen\<close>

lemma date_less_Some_iff: "date_less d (Some now) \<longleftrightarrow> (\<exists>t. d = Some t \<and> t < now)"
  by (cases d) auto

lemma getTaskStatusIcon_agrees:
  "getTaskStatusIcon parse now (completed task) (due_date task) =
     (if task_badge parse now task = ''Completed'' then CheckCircle
      else if task_badge parse now task = ''Overdue'' then AlertCircle else Circle)"
  by (simp add: getTaskStatusIcon_def task_badge_def)

text \<open>
  C1. For every recovery task rendered on the timeline, the badge is "Completed" when the
  task's \<open>completed\<close> field is true; "Overdue" exactly when the task is not completed and its
  due date is strictly before the current time; and "Pending" in every other case, which for
  a due date that parses is: not completed and due at or after the current time.
\<close>

theorem task_badge_cases:
  "(completed task \<longrightarrow> task_badge parse now task = ''Completed'')
   \<and> (task_badge parse now task = ''Overdue''
        \<longleftrightarrow> \<not> completed task \<and> (\<exists>t. parse (due_date task) = Some t \<and> t < now))
   \<and> (task_badge parse now task = ''Pending''
        \<longleftrightarrow> \<not> completed task \<and> \<not> (\<exists>t. parse (due_date task) = Some t \<and> t < now))
   \<and> (\<forall>t. parse (due_date task) = Some t \<longrightarrow>
        (task_badge parse now task = ''Pending'' \<longleftrightarrow> \<not> completed task \<and> now \<le> t))"
  by (auto simp: task_badge_def date_less_Some_iff)

text \<open>The sample task is due on 1 March 2025: pending a day before, overdue a day after,
  and completed once its field says so.\<close>

theorem task_badge_cases_witness:
  "completed (sample_task\<lparr>completed := True\<rparr>)
   \<and> task_badge sample_parse 5184000000 (sample_task\<lparr>completed := True\<rparr>) = ''Completed''
   \<and> sample_parse (due_date sample_task) = Some 5097600000
   \<and> task_badge sample_parse 5184000000 sample_task = ''Overdue''
   \<and> task_badge sample_parse 5011200000 sample_task = ''Pending''"
proof -
  have parsed: "sample_parse (due_date sample_task) = Some 5097600000"
    by (simp add: sample_task_def sample_parse_def)
  have open_task: "\<not> completed sample_task"
    by (simp add: sample_task_def)
  have "task_badge sample_parse 5184000000 (sample_task\<lparr>completed := True\<rparr>) = ''Completed''"
    using task_badge_cases [of "sample_task\<lparr>completed := True\<rparr>" sample_parse 5184000000] by simp
  moreover have "task_badge sample_parse 5184000000 sample_task = ''Overdue''"
    using task_badge_cases [of sample_task sample_parse 5184000000] parsed open_task by simp
  moreover have "task_badge sample_parse 5011200000 sample_task = ''Pending''"
    using task_badge_cases [of sample_task sample_parse 5011200000] parsed open_task by simp
  ultimately show ?thesis using parsed by simp
qed

section \<open>Properties of the analytics grouping\<close>

subsection \<open>One step\<close>

lemma map_key_increment_found: "map key (increment_found P acc) = map key acc"
  by (induction acc) auto

lemma find_None_iff_key: "find (\<lambda>item. key item = k) acc = None \<longleftrightarrow> k \<notin> set (map key acc)"
  by (induction acc) auto

lemma map_key_count_step:
  "map key (count_step f acc r) = (if f r \<in> set (map key acc) then map key acc else map key acc @ [f r])"
proof (cases "find (\<lambda>item. key item = f r) acc")
  case None
  then show ?thesis using find_None_iff_key[of "f r" acc] by (simp add: count_step_def)
next
  case (Some a)
  then show ?thesis using find_None_iff_key[of "f r" acc]
    by (simp add: count_step_def map_key_increment_found)
qed

lemma distinct_count_step: "distinct (map key acc) \<Longrightarrow> distinct (map key (count_step f acc r))"
  by (simp add: map_key_count_step)

lemma tally_increment_found:
  "distinct (map key acc) \<Longrightarrow> k \<in> set (map key acc) \<Longrightarrow>
   tally (increment_found (\<lambda>item. key item = k) acc) k' = tally acc k' + (if k = k' then 1 else 0)"
proof (induction acc)
  case Nil
  then show ?case by simp
next
  case (Cons a acc)
  show ?case
  proof (cases "key a = k")
    case True
    then show ?thesis by (auto simp: tally_def)
  next
    case False
    with Cons have "tally (increment_found (\<lambda>item. key item = k) acc) k' = tally acc k' + (if k = k' then 1 else 0)"
      by auto
    with False show ?thesis by (auto simp: tally_def)
  qed
qed

lemma tally_count_step:
  assumes "distinct (map key acc)"
  shows "tally (count_step f acc r) k = tally acc k + (if f r = k then 1 else 0)"
proof (cases "find (\<lambda>item. key item = f r) acc")
  case None
  then show ?thesis by (auto simp: count_step_def tally_def)
next
  case (Some a)
  then have "f r \<in> set (map key acc)" using find_None_iff_key[of "f r" acc] by auto
  with assms Some show ?thesis by (simp add: count_step_def tally_increment_found)
qed

lemma sum_count_increment_found:
  "\<exists>item\<in>set acc. P item \<Longrightarrow>
   sum_list (map count (increment_found P acc)) = sum_list (map count acc) + 1"
  by (induction acc) auto

lemma positive_increment_found:
  "\<forall>item\<in>set acc. 1 \<le> count item \<Longrightarrow> \<forall>item\<in>set (increment_found P acc). 1 \<le> count item"
  by (induction acc) auto

lemma sum_count_step: "sum_list (map count (count_step f acc r)) = sum_list (map count acc) + 1"
proof (cases "find (\<lambda>item. key item = f r) acc")
  case None
  then show ?thesis by (simp add: count_step_def)
next
  case (Some a)
  then have "\<exists>item\<in>set acc. key item = f r" by (auto simp: find_Some_iff)
  with Some show ?thesis by (simp add: count_step_def sum_count_increment_found)
qed

lemma positive_count_step:
  "\<forall>item\<in>set acc. 1 \<le> count item \<Longrightarrow> \<forall>item\<in>set (count_step f acc r). 1 \<le> count item"
  using positive_increment_found[of acc "\<lambda>item. key item = f r"]
  by (auto simp: count_step_def split: option.splits)

subsection \<open>The whole reduction\<close>

text \<open>The accumulator changes with every row, so the statements are about any accumulator
  with distinct keys.\<close>

lemma foldl_count_step:
  "distinct (map key acc) \<Longrightarrow>
   distinct (map key (foldl (count_step f) acc rows))
   \<and> set (map key (foldl (count_step f) acc rows)) = set (map key acc) \<union> f ` set rows
   \<and> (\<forall>k. tally (foldl (count_step f) acc rows) k = tally acc k + length (filter (\<lambda>r. f r = k) rows))"
proof (induction rows arbitrary: acc)
  case Nil
  then show ?case by simp
next
  case (Cons r rows)
  have d: "distinct (map key (count_step f acc r))" using Cons.prems by (rule distinct_count_step)
  from Cons.IH[OF d] show ?case
    by (auto simp: map_key_count_step tally_count_step[OF Cons.prems] split: if_splits)
qed

lemma foldl_count_step_sum:
  "sum_list (map count (foldl (count_step f) acc rows)) = sum_list (map count acc) + length rows"
  by (induction rows arbitrary: acc) (simp_all add: sum_count_step)

lemma foldl_count_step_positive:
  "\<forall>item\<in>set acc. 1 \<le> count item \<Longrightarrow> \<forall>item\<in>set (foldl (count_step f) acc rows). 1 \<le> count item"
proof (induction rows arbitrary: acc)
  case Nil
  then show ?case by simp
next
  case (Cons r rows)
  show ?case using Cons.IH[OF positive_count_step[OF Cons.prems]] by simp
qed

lemma filter_key_absent: "k \<notin> set (map key acc) \<Longrightarrow> filter (\<lambda>item. key item = k) acc = []"
  by (induction acc) auto

lemma tally_distinct_member:
  "distinct (map key acc) \<Longrightarrow> item \<in> set acc \<Longrightarrow> tally acc (key item) = count item"
proof (induction acc)
  case Nil
  then show ?case by simp
next
  case (Cons a acc)
  then show ?case
  proof (cases "item = a")
    case True
    with Cons.prems have "filter (\<lambda>i. key i = key a) acc = []"
      by (simp add: filter_key_absent)
    with True show ?thesis by (simp add: tally_def)
  next
    case False
    with Cons show ?thesis by (auto simp: tally_def)
  qed
qed

lemma group_rows_distinct: "distinct (map key (group_rows f rows))"
  using foldl_count_step[of "[]" f rows] by (simp add: group_rows_def)

lemma group_rows_keys: "set (map key (group_rows f rows)) = f ` set rows"
  using foldl_count_step[of "[]" f rows] by (simp add: group_rows_def)

lemma group_rows_count:
  assumes "item \<in> set (group_rows f rows)"
  shows "count item = length (filter (\<lambda>r. f r = key item) rows)"
proof -
  have "tally (group_rows f rows) (key item) = length (filter (\<lambda>r. f r = key item) rows)"
    using foldl_count_step[of "[]" f rows] by (simp add: group_rows_def tally_def)
  then show ?thesis using tally_distinct_member[OF group_rows_distinct assms] by simp
qed

lemma set_group_rows:
  "set (group_rows f rows) = (\<lambda>k. \<lparr>key = k, count = length (filter (\<lambda>r. f r = k) rows)\<rparr>) ` f ` set rows"
proof (intro set_eqI iffI)
  fix item assume m: "item \<in> set (group_rows f rows)"
  then have "key item \<in> f ` set rows" using group_rows_keys[of f rows] by auto
  moreover have "item = \<lparr>key = key item, count = length (filter (\<lambda>r. f r = key item) rows)\<rparr>"
    using group_rows_count[OF m] by simp
  ultimately show "item \<in> (\<lambda>k. \<lparr>key = k, count = length (filter (\<lambda>r. f r = k) rows)\<rparr>) ` f ` set rows"
    by blast
next
  fix item assume "item \<in> (\<lambda>k. \<lparr>key = k, count = length (filter (\<lambda>r. f r = k) rows)\<rparr>) ` f ` set rows"
  then obtain k where k: "k \<in> f ` set rows" and i: "item = \<lparr>key = k, count = length (filter (\<lambda>r. f r = k) rows)\<rparr>"
    by blast
  from k obtain g where g: "g \<in> set (group_rows f rows)" "key g = k"
    using group_rows_keys[of f rows] by (metis (no_types, lifting) imageE set_map)
  then have "g = item" using group_rows_count[OF g(1)] i by simp
  with g show "item \<in> set (group_rows f rows)" by simp
qed

lemma group_rows_invariant:
  "distinct (map key (group_rows f rows))
   \<and> (\<forall>item\<in>set (group_rows f rows). 1 \<le> count item)
   \<and> sum_list (map count (group_rows f rows)) = length rows"
  using foldl_count_step_positive[of "[]" f rows] foldl_count_step_sum[of f "[]" rows]
    group_rows_distinct[of f rows]
  by (simp add: group_rows_def)

lemma sample_plans_grouped:
  "group_rows plan_status sample_plans = [\<lparr>key = ''planning'', count = 2\<rparr>, \<lparr>key = ''post_op'', count = 1\<rparr>]"
  by (simp add: group_rows_def count_step_def sample_plans_def)

lemma sample_regions_grouped:
  "group_rows row_region sample_regions = [\<lparr>key = ''AU'', count = 3\<rparr>, \<lparr>key = ''NZ'', count = 1\<rparr>]"
  by (simp add: group_rows_def count_step_def sample_regions_def)

lemma sample_registered_grouped:
  "group_rows (\<lambda>profile. sample_month_label (row_created_at profile)) sample_registered
     = [\<lparr>key = ''Jan 2025'', count = 1\<rparr>, \<lparr>key = ''Mar 2025'', count = 1\<rparr>]"
  by (simp add: group_rows_def count_step_def sample_registered_def sample_month_label_def)

subsection \<open>The grouped lists of the screen\<close>

text \<open>
  C7. For every fetched row set, the grouping holds, for each distinct surgery-plan status,
  region and registration month present in the input, one entry with that key and the exact
  number of input rows carrying the key, and no other entry: count by status over the
  surgery plans, by region over the patient profiles, by month over the registration dates.
\<close>

theorem grouping_counts_each_key:
  "set (plansByStatus (loadPlanStats (Some plans) prev))
     = (\<lambda>s. \<lparr>key = s, count = length (filter (\<lambda>plan. plan_status plan = s) plans)\<rparr>) ` plan_status ` set plans
   \<and> distinct (map key (plansByStatus (loadPlanStats (Some plans) prev)))
   \<and> set (patientsByRegion (loadRegionStats (Some profiles) prev))
     = (\<lambda>r. \<lparr>key = r, count = length (filter (\<lambda>profile. row_region profile = r) profiles)\<rparr>)
         ` row_region ` set profiles
   \<and> distinct (map key (patientsByRegion (loadRegionStats (Some profiles) prev)))
   \<and> set (monthlyRegistrations (loadMonthlyStats month_label (Some registered) prev))
     = (\<lambda>m. \<lparr>key = m, count = length (filter (\<lambda>profile. month_label (row_created_at profile) = m) registered)\<rparr>)
         ` (\<lambda>profile. month_label (row_created_at profile)) ` set registered
   \<and> distinct (map key (monthlyRegistrations (loadMonthlyStats month_label (Some registered) prev)))"
  by (simp add: loadPlanStats_def loadRegionStats_def loadMonthlyStats_def set_group_rows group_rows_distinct)

text \<open>On the sample rows: two plans in planning and one post-op; three patients in AU and
  one in NZ; one registration in each of two months.\<close>

theorem grouping_counts_each_key_witness:
  "plansByStatus (loadPlanStats (Some sample_plans) initial_analytics)
     = [\<lparr>key = ''planning'', count = 2\<rparr>, \<lparr>key = ''post_op'', count = 1\<rparr>]
   \<and> (\<lambda>s. \<lparr>key = s, count = length (filter (\<lambda>plan. plan_status plan = s) sample_plans)\<rparr>)
         ` plan_status ` set sample_plans
     = {\<lparr>key = ''planning'', count = 2\<rparr>, \<lparr>key = ''post_op'', count = 1\<rparr>}
   \<and> patientsByRegion (loadRegionStats (Some sample_regions) initial_analytics)
     = [\<lparr>key = ''AU'', count = 3\<rparr>, \<lparr>key = ''NZ'', count = 1\<rparr>]
   \<and> monthlyRegistrations (loadMonthlyStats sample_month_label (Some sample_registered) initial_analytics)
     = [\<lparr>key = ''Jan 2025'', count = 1\<rparr>, \<lparr>key = ''Mar 2025'', count = 1\<rparr>]"
  using grouping_counts_each_key [of sample_plans initial_analytics sample_regions sample_month_label
      sample_registered]
  by (simp add: loadPlanStats_def loadRegionStats_def loadMonthlyStats_def sample_plans_grouped
      sample_regions_grouped sample_registered_grouped)

text \<open>
  C9. For every input row list, each grouping reduction (plans by status, patients by
  region, registrations by month) yields a list whose keys are pairwise distinct, whose
  counts are all at least 1, and whose counts sum to the length of the input list.
\<close>

theorem grouping_invariants:
  "(let groups = plansByStatus (loadPlanStats (Some plans) prev) in
      distinct (map key groups) \<and> (\<forall>item\<in>set groups. 1 \<le> count item)
      \<and> sum_list (map count groups) = length plans)
   \<and> (let groups = patientsByRegion (loadRegionStats (Some profiles) prev) in
      distinct (map key groups) \<and> (\<forall>item\<in>set groups. 1 \<le> count item)
      \<and> sum_list (map count groups) = length profiles)
   \<and> (let groups = monthlyRegistrations (loadMonthlyStats month_label (Some registered) prev) in
      distinct (map key groups) \<and> (\<forall>item\<in>set groups. 1 \<le> count item)
      \<and> sum_list (map count groups) = length registered)"
  using group_rows_invariant[of plan_status plans] group_rows_invariant[of row_region profiles]
    group_rows_invariant[of "\<lambda>profile. month_label (row_created_at profile)" registered]
  by (simp add: loadPlanStats_def loadRegionStats_def loadMonthlyStats_def Let_def)

theorem grouping_invariants_witness:
  "map key (plansByStatus (loadPlanStats (Some sample_plans) initial_analytics)) = [''planning'', ''post_op'']
   \<and> map count (plansByStatus (loadPlanStats (Some sample_plans) initial_analytics)) = [2, 1]
   \<and> sum_list (map count (plansByStatus (loadPlanStats (Some sample_plans) initial_analytics))) = length sample_plans
   \<and> length sample_plans = 3
   \<and> sum_list (map count (patientsByRegion (loadRegionStats (Some sample_regions) initial_analytics))) = 4
   \<and> sum_list (map count
        (monthlyRegistrations (loadMonthlyStats sample_month_label (Some sample_registered) initial_analytics))) = 2"
  using grouping_invariants [of sample_plans initial_analytics sample_regions sample_month_label
      sample_registered]
  by (simp add: loadPlanStats_def loadRegionStats_def loadMonthlyStats_def sample_plans_grouped
      sample_regions_grouped sample_registered_grouped)

section \<open>Properties of the task completion rate\<close>

subsection \<open>Rounding to a double\<close>

lemma ilog2_bounds: "1 \<le> n \<Longrightarrow> 2 ^ ilog2 n \<le> n \<and> n < 2 ^ Suc (ilog2 n)"
proof (induction n rule: ilog2.induct)
  case (1 n)
  show ?case
  proof (cases "n < 2")
    case True
    with "1.prems" have "n = 1" by simp
    then show ?thesis by simp
  next
    case False
    then have h: "1 \<le> n div 2" by simp
    from "1.IH"[OF False h] have lo: "2 ^ ilog2 (n div 2) \<le> n div 2"
      and hi: "n div 2 < 2 ^ Suc (ilog2 (n div 2))" by auto
    have e: "ilog2 n = Suc (ilog2 (n div 2))" using False by (subst ilog2.simps) simp
    from lo have "2 * 2 ^ ilog2 (n div 2) \<le> n" by linarith
    moreover from hi have "n < 2 * 2 ^ Suc (ilog2 (n div 2))" by linarith
    ultimately show ?thesis by (simp add: e del: ilog2.simps)
  qed
qed

lemma exponent_bounds_ge1:
  assumes "1 \<le> x"
  shows "2 powi exponent x \<le> x \<and> x < 2 powi (exponent x + 1)"
proof -
  define n where "n = nat \<lfloor>x\<rfloor>"
  have n1: "1 \<le> n" using assms by (simp add: n_def le_nat_iff)
  have fl: "of_nat n = (of_int \<lfloor>x\<rfloor> :: rat)" using assms by (simp add: n_def)
  have e: "exponent x = int (ilog2 n)" using assms by (simp add: exponent_def n_def)
  from ilog2_bounds[OF n1] have lo: "2 ^ ilog2 n \<le> n" and hi: "n < 2 ^ Suc (ilog2 n)" by auto
  from lo have "(of_nat (2 ^ ilog2 n) :: rat) \<le> of_nat n" by (rule of_nat_mono)
  then have "(2 ^ ilog2 n :: rat) \<le> of_int \<lfloor>x\<rfloor>" by (simp add: fl)
  then have a: "(2 ^ ilog2 n :: rat) \<le> x" by linarith
  from hi have "Suc n \<le> 2 ^ Suc (ilog2 n)" by simp
  then have "(of_nat (Suc n) :: rat) \<le> of_nat (2 ^ Suc (ilog2 n))" by (rule of_nat_mono)
  then have "of_int \<lfloor>x\<rfloor> + 1 \<le> (2 ^ Suc (ilog2 n) :: rat)" using fl by simp
  then have b: "x < (2 ^ Suc (ilog2 n) :: rat)" by linarith
  have p1: "(2::rat) powi exponent x = 2 ^ ilog2 n" by (simp add: e)
  have "exponent x + 1 = int (Suc (ilog2 n))" by (simp add: e)
  then have p2: "(2::rat) powi (exponent x + 1) = 2 ^ Suc (ilog2 n)" by (simp only: power_int_of_nat)
  show ?thesis using a b by (simp only: p1 p2)
qed

lemma exponent_bounds_lt1:
  assumes "0 < x" "x < 1"
  shows "2 powi exponent x \<le> x \<and> x < 2 powi (exponent x + 1)"
proof -
  define y where "y = 1 / x"
  define n where "n = nat \<lceil>y\<rceil>"
  define k where "k = Suc (ilog2 (n - 1))"
  have y1: "1 < y" using assms by (simp add: y_def)
  then have c2: "2 \<le> \<lceil>y\<rceil>" by linarith
  then have n2: "2 \<le> n" unfolding n_def by linarith
  have cn: "(of_nat n :: rat) = of_int \<lceil>y\<rceil>" using c2 by (simp add: n_def)
  have e: "exponent x = - int k" using assms n2 by (simp add: exponent_def n_def y_def k_def Let_def)
  have "1 \<le> n - 1" using n2 by simp
  from ilog2_bounds[OF this] have lo: "2 ^ ilog2 (n - 1) \<le> n - 1" and hi: "n - 1 < 2 ^ k"
    by (auto simp: k_def)
  from lo have "Suc (2 ^ ilog2 (n - 1)) \<le> n" using n2 by simp
  then have "(of_nat (Suc (2 ^ ilog2 (n - 1))) :: rat) \<le> of_nat n" by (rule of_nat_mono)
  then have "(2 ^ ilog2 (n - 1) :: rat) + 1 \<le> of_int \<lceil>y\<rceil>" by (simp add: cn)
  moreover have "of_int \<lceil>y\<rceil> < y + 1" by linarith
  ultimately have a: "(2 ^ ilog2 (n - 1) :: rat) < y" by linarith
  from hi have "n \<le> 2 ^ k" by simp
  then have "(of_nat n :: rat) \<le> of_nat (2 ^ k)" by (rule of_nat_mono)
  then have "of_int \<lceil>y\<rceil> \<le> (2 ^ k :: rat)" by (simp add: cn)
  moreover have "y \<le> of_int \<lceil>y\<rceil>" by linarith
  ultimately have b: "y \<le> (2 ^ k :: rat)" by linarith
  have p1: "(2::rat) powi exponent x = 1 / 2 ^ k" by (simp add: e power_int_minus_divide)
  have "exponent x + 1 = - int (ilog2 (n - 1))" by (simp add: e k_def)
  then have p2: "(2::rat) powi (exponent x + 1) = 1 / 2 ^ ilog2 (n - 1)"
    by (simp add: power_int_minus_divide)
  have A: "1 / 2 ^ k \<le> x" using b assms(1) by (simp add: y_def field_simps)
  have B: "x < 1 / 2 ^ ilog2 (n - 1)" using a assms(1) by (simp add: y_def field_simps)
  show ?thesis using A B by (simp only: p1 p2)
qed

text \<open>The exponent is the one of the binary representation.\<close>

lemma exponent_bounds: "0 < x \<Longrightarrow> 2 powi exponent x \<le> x \<and> x < 2 powi (exponent x + 1)"
  using exponent_bounds_ge1[of x] exponent_bounds_lt1[of x] by (cases "1 \<le> x") auto

lemma exponent_ge:
  assumes "0 < x" "2 powi k \<le> x"
  shows "k \<le> exponent x"
proof (rule ccontr)
  assume "\<not> k \<le> exponent x"
  then have "exponent x + 1 \<le> k" by simp
  then have "(2::rat) powi (exponent x + 1) \<le> 2 powi k" by (intro power_int_increasing) auto
  with assms(2) exponent_bounds[OF assms(1)] show False by linarith
qed

lemma round_half_even_error: "\<bar>of_int (round_half_even m) - m\<bar> \<le> 1 / 2"
proof -
  have "of_int \<lfloor>m\<rfloor> \<le> m" "m < of_int \<lfloor>m\<rfloor> + 1" by linarith+
  then show ?thesis by (auto simp: round_half_even_def Let_def)
qed

text \<open>In the normal range, rounding to a double moves a number by at most half a unit in
  the last place: a relative error of \<open>2 ^ -53\<close>.\<close>

lemma to_double_error:
  assumes "0 < x" "- 1022 \<le> exponent x"
  shows "\<bar>to_double x - x\<bar> \<le> x / 2 ^ 53"
proof -
  define u :: rat where "u = 2 powi (exponent x - 52)"
  have u0: "0 < u" by (simp add: u_def)
  have ux: "ulp x = u" using assms by (simp add: ulp_def u_def max_def)
  have td: "to_double x = of_int (round_half_even (x / u)) * u"
    using assms(1) by (simp add: to_double_def ux)
  have "to_double x - x = (of_int (round_half_even (x / u)) - x / u) * u"
    using u0 by (simp add: td field_simps)
  then have "\<bar>to_double x - x\<bar> = \<bar>of_int (round_half_even (x / u)) - x / u\<bar> * u"
    using u0 by (simp add: abs_mult)
  also have "\<dots> \<le> (1 / 2) * u"
    using round_half_even_error[of "x / u"] u0 by (intro mult_right_mono) auto
  also have "(1 / 2) * u = 2 powi exponent x / 2 ^ 53"
  proof -
    have "u = 2 powi exponent x / 2 powi 52" unfolding u_def by (rule power_int_diff) simp
    then show ?thesis by simp
  qed
  also have "\<dots> \<le> x / 2 ^ 53"
    using exponent_bounds[OF assms(1)] by (intro divide_right_mono) auto
  finally show ?thesis .
qed

lemma to_double_0: "to_double 0 = 0"
  by (simp add: to_double_def)

subsection \<open>The percentage\<close>

text \<open>The two roundings of \<^verbatim>\<open>(completed / total) * 100\<close> together move the result by less
  than \<open>2 ^ -45\<close>, for counts of a JavaScript array (below \<open>2 ^ 32\<close>).\<close>

lemma percentage_error_pos:
  fixes c t :: nat
  assumes "1 \<le> c" "c \<le> t" "t < 2 ^ 32"
  shows "\<bar>num_mul (num_div (of_nat c) (of_nat t)) 100 - 100 * of_nat c / of_nat t\<bar> \<le> 1 / 2 ^ 45"
proof -
  define x :: rat where "x = of_nat c / of_nat t"
  define q where "q = to_double x"
  define y where "y = to_double (q * 100)"
  have t0: "0 < t" using assms by simp
  have "(of_nat t :: rat) < of_nat (2 ^ 32)" using assms(3) by (simp only: of_nat_less_iff)
  then have tr: "(of_nat t :: rat) < 2 ^ 32" by simp
  have cr: "(1::rat) \<le> of_nat c" using assms(1) by simp
  have ct: "(of_nat c :: rat) \<le> of_nat t" using assms(2) by simp
  have x0: "0 < x" using assms by (simp add: x_def)
  have x1: "x \<le> 1" using ct t0 by (simp add: x_def)
  have "1 / 2 ^ 32 < 1 / (of_nat t :: rat)" using tr t0 by (intro divide_strict_left_mono) auto
  also have "\<dots> \<le> x" unfolding x_def using cr t0 by (intro divide_right_mono) auto
  finally have xlo: "1 / 2 ^ 32 < x" .
  have "(2::rat) powi (- 32) \<le> x" using xlo by (simp add: power_int_minus_divide)
  from exponent_ge[OF x0 this] have ex: "- 1022 \<le> exponent x" by simp
  from to_double_error[OF x0 ex] have qe: "\<bar>q - x\<bar> \<le> x / 2 ^ 53" by (simp add: q_def)
  have qlo: "x / 2 \<le> q"
  proof -
    have "x / 2 ^ 53 \<le> x / 2" using x0 by (intro divide_left_mono) auto
    with qe show ?thesis by linarith
  qed
  have qhi: "q \<le> x + x / 2 ^ 53" using qe by linarith
  have q0: "0 < q * 100" using qlo x0 by simp
  have "(2::rat) powi (- 32) \<le> q * 100" using qlo xlo by (simp add: power_int_minus_divide)
  from exponent_ge[OF q0 this] have eq: "- 1022 \<le> exponent (q * 100)" by simp
  from to_double_error[OF q0 eq] have ye: "\<bar>y - q * 100\<bar> \<le> q * 100 / 2 ^ 53" by (simp add: y_def)
  have "y - 100 * x = (y - q * 100) + 100 * (q - x)" by simp
  then have "\<bar>y - 100 * x\<bar> \<le> \<bar>y - q * 100\<bar> + \<bar>100 * (q - x)\<bar>"
    by (simp only: abs_triangle_ineq)
  moreover have "\<bar>100 * (q - x)\<bar> = 100 * \<bar>q - x\<bar>"
    by (simp only: abs_mult)
  ultimately have "\<bar>y - 100 * x\<bar> \<le> \<bar>y - q * 100\<bar> + 100 * \<bar>q - x\<bar>"
    by (simp only:)
  also have "\<dots> \<le> q * 100 / 2 ^ 53 + 100 * (x / 2 ^ 53)"
    using ye qe by (intro add_mono mult_left_mono) auto
  also have "\<dots> \<le> (x + x / 2 ^ 53) * 100 / 2 ^ 53 + 100 * (x / 2 ^ 53)"
    using qhi by (intro add_right_mono divide_right_mono mult_right_mono) auto
  also have "\<dots> \<le> (1 + 1 / 2 ^ 53) * 100 / 2 ^ 53 + 100 * (1 / 2 ^ 53)"
    using x1 x0 by (intro add_mono divide_right_mono mult_right_mono mult_left_mono add_mono) auto
  also have "\<dots> \<le> 1 / 2 ^ 45" by simp
  finally have "\<bar>y - 100 * x\<bar> \<le> 1 / 2 ^ 45" .
  then show ?thesis by (simp add: y_def q_def x_def num_mul_def num_div_def)
qed

lemma percentage_error:
  fixes c t :: nat
  assumes "c \<le> t" "0 < t" "t < 2 ^ 32"
  shows "\<bar>num_mul (num_div (of_nat c) (of_nat t)) 100 - of_nat c / of_nat t * 100\<bar> \<le> 1 / 2 ^ 45"
proof (cases "c = 0")
  case True
  then show ?thesis by (simp add: num_mul_def num_div_def to_double_0)
next
  case False
  then have "1 \<le> c" by simp
  from percentage_error_pos[OF this assms(1) assms(3)] show ?thesis by (simp add: mult.commute)
qed

text \<open>A rational with denominator \<open>d\<close> that is not an integer keeps the distance \<open>1 / d\<close>
  from every integer.\<close>

lemma gap_to_integer:
  fixes z :: rat and k :: int and d :: nat
  assumes "0 < d" "z * of_nat d \<in> \<int>" "of_int k < z"
  shows "of_int k + 1 / of_nat d \<le> z"
proof -
  from assms(2) obtain n :: int where n: "z * of_nat d = of_int n" by (auto elim: Ints_cases)
  have "of_int k * of_nat d < z * (of_nat d :: rat)" using assms(1,3) by simp
  then have "(of_int (k * int d) :: rat) < of_int n" by (simp add: n)
  then have "k * int d < n" by (simp only: of_int_less_iff)
  then have "k * int d + 1 \<le> n" by simp
  then have "(of_int (k * int d + 1) :: rat) \<le> of_int n" by (simp only: of_int_le_iff)
  then have "of_int k * of_nat d + 1 \<le> z * (of_nat d :: rat)" by (simp add: n)
  then show ?thesis using assms(1) by (simp add: field_simps)
qed

lemma gap_from_integer:
  fixes z :: rat and k :: int and d :: nat
  assumes "0 < d" "z * of_nat d \<in> \<int>" "z < of_int k"
  shows "z \<le> of_int k - 1 / of_nat d"
proof -
  have "(- z) * of_nat d \<in> \<int>" using assms(2) by simp
  moreover have "of_int (- k) < - z" using assms(3) by simp
  ultimately have "of_int (- k) + 1 / of_nat d \<le> - z" using assms(1) by (rule gap_to_integer[rotated])
  then show ?thesis by simp
qed

text \<open>The rounded double product against the exactly rounded percentage: equal, unless the
  exact percentage lies halfway between two integers; then the double product may fall just
  below the half and round down.\<close>

lemma rate_near_exact:
  fixes c t :: nat
  assumes "c \<le> t" "0 < t" "t < 2 ^ 32"
  defines "y \<equiv> num_mul (num_div (of_nat c) (of_nat t)) 100"
    and "X \<equiv> (of_nat c / of_nat t * 100 :: rat)"
  shows "(X + 1 / 2 \<notin> \<int> \<longrightarrow> Math_round y = round X)
       \<and> (X + 1 / 2 \<in> \<int> \<longrightarrow> Math_round y = round X \<or> Math_round y = round X - 1)"
proof -
  define z where "z = X + 1 / 2"
  define k where "k = \<lfloor>z\<rfloor>"
  define d where "d = 2 * t"
  have d0: "0 < d" using assms(2) by (simp add: d_def)
  have err: "\<bar>y - X\<bar> \<le> 1 / 2 ^ 45" unfolding y_def X_def by (rule percentage_error[OF assms(1-3)])
  have zd: "z * of_nat d = of_nat (200 * c + t)" using assms(2) by (simp add: z_def X_def d_def field_simps)
  have zint: "z * of_nat d \<in> \<int>" unfolding zd by (rule Ints_of_nat)
  have "(of_nat d :: rat) < of_nat (2 ^ 33)" using assms(3) unfolding d_def by (simp only: of_nat_less_iff) simp
  then have "(of_nat d :: rat) < 2 ^ 33" by simp
  then have "1 / 2 ^ 33 < 1 / (of_nat d :: rat)" using d0 by (intro divide_strict_left_mono) auto
  then have gap: "1 / 2 ^ 45 < 1 / (of_nat d :: rat)" by simp
  have rk: "round X = k" by (simp add: round_def k_def z_def)
  have my: "Math_round y = \<lfloor>y + 1 / 2\<rfloor>" by (simp add: Math_round_def)
  have klo: "of_int k \<le> z" and khi: "z < of_int k + 1" unfolding k_def by linarith+
  show ?thesis
  proof (intro conjI impI)
    assume "X + 1 / 2 \<notin> \<int>"
    then have "z \<noteq> of_int k" unfolding z_def by (metis Ints_of_int)
    with klo have "of_int k < z" by simp
    from gap_to_integer[OF d0 zint this] have a: "of_int k + 1 / of_nat d \<le> z" .
    have "z < of_int (k + 1)" using khi by simp
    from gap_from_integer[OF d0 zint this] have b: "z \<le> of_int k + 1 - 1 / of_nat d" by simp
    have "of_int k \<le> y + 1 / 2" using a gap err unfolding z_def by linarith
    moreover have "y + 1 / 2 < of_int k + 1" using b gap err unfolding z_def by linarith
    ultimately have "\<lfloor>y + 1 / 2\<rfloor> = k" by (intro floor_unique) auto
    then show "Math_round y = round X" by (simp add: rk my)
  next
    assume "X + 1 / 2 \<in> \<int>"
    then have "z = of_int k" unfolding k_def z_def by (auto elim: Ints_cases)
    then have zk: "X + 1 / 2 = of_int k" by (simp add: z_def)
    have "1 / 2 ^ 45 \<le> (1::rat)" by simp
    with err have err1: "\<bar>y - X\<bar> \<le> 1" by linarith
    have "of_int k - 1 \<le> y + 1 / 2" using err1 zk by linarith
    then have "of_int (k - 1) \<le> y + 1 / 2" by simp
    then have l: "k - 1 \<le> \<lfloor>y + 1 / 2\<rfloor>" by (simp only: le_floor_iff)
    have "1 / 2 ^ 45 < (1::rat)" by simp
    with err have err2: "\<bar>y - X\<bar> < 1" by linarith
    have "y + 1 / 2 < of_int k + 1" using err2 zk by linarith
    then have "y + 1 / 2 < of_int (k + 1)" by simp
    then have "\<lfloor>y + 1 / 2\<rfloor> < k + 1" by (simp only: floor_less_iff)
    with l have "\<lfloor>y + 1 / 2\<rfloor> = k \<or> \<lfloor>y + 1 / 2\<rfloor> = k - 1" by linarith
    then show "Math_round y = round X \<or> Math_round y = round X - 1" by (simp add: rk my)
  qed
qed

lemma taskCompletionRate_loadTaskStats:
  "taskCompletionRate (loadTaskStats parse now (Some tasks) prev) =
     (if tasks = [] then 0
      else Math_round (num_mul (num_div (of_nat (length (filter row_completed tasks))) (of_nat (length tasks))) 100))"
  by (simp add: loadTaskStats_def Let_def)

lemma sample_tasks_counts: "length (filter row_completed sample_tasks) = 23 \<and> length sample_tasks = 40"
  by (simp add: sample_tasks_def done_row_def open_row_def)

lemma sample_rate_double: "Math_round (num_mul (num_div 23 40) 100) = 57"
  by code_simp

lemma sample_rate_exact: "round (23 / 40 * 100 :: rat) = 58"
  by (simp add: round_def)

lemma sample_rate: "taskCompletionRate (loadTaskStats parse now (Some sample_tasks) prev) = 57"
proof -
  have "sample_tasks \<noteq> []" using sample_tasks_counts by auto
  then show ?thesis
    using sample_tasks_counts sample_rate_double by (simp add: taskCompletionRate_loadTaskStats)
qed

text \<open>
  C2, as the code has it. For every list of fetched recovery tasks (a JavaScript array, of
  fewer than \<open>2 ^ 32\<close> rows), the task completion rate is 0 when there is no task, and
  otherwise \<^verbatim>\<open>Math.round\<close> of the product \<^verbatim>\<open>(completed / total) * 100\<close> computed in double
  precision. It equals the exactly rounded percentage \<open>round (completed / total * 100)\<close>
  whenever the exact percentage is not halfway between two integers; when it is halfway, the
  rate is the exactly rounded percentage or one below it.
\<close>

theorem task_completion_rate:
  assumes "length tasks < 2 ^ 32"
  shows "let n_completed = length (filter row_completed tasks);
             n_total = length tasks;
             rate = taskCompletionRate (loadTaskStats parse now (Some tasks) prev);
             exact = (of_nat n_completed / of_nat n_total * 100 :: rat)
         in (n_total = 0 \<longrightarrow> rate = 0)
          \<and> (0 < n_total \<longrightarrow> rate = Math_round (num_mul (num_div (of_nat n_completed) (of_nat n_total)) 100))
          \<and> (exact + 1 / 2 \<notin> \<int> \<longrightarrow> rate = round exact)
          \<and> (exact + 1 / 2 \<in> \<int> \<longrightarrow> rate = round exact \<or> rate = round exact - 1)"
proof (cases "tasks = []")
  case True
  have "\<lfloor>1 / 2 :: rat\<rfloor> = 0" by (simp add: floor_eq_iff)
  with True show ?thesis
    by (simp add: taskCompletionRate_loadTaskStats round_def)
next
  case False
  define n_completed where "n_completed = length (filter row_completed tasks)"
  define n_total where "n_total = length tasks"
  have t0: "0 < n_total" using False by (simp add: n_total_def)
  have le: "n_completed \<le> n_total" unfolding n_completed_def n_total_def by (rule length_filter_le)
  have lt: "n_total < 2 ^ 32" using assms(1) by (simp add: n_total_def)
  have r: "taskCompletionRate (loadTaskStats parse now (Some tasks) prev)
             = Math_round (num_mul (num_div (of_nat n_completed) (of_nat n_total)) 100)"
    using False by (simp add: n_total_def n_completed_def taskCompletionRate_loadTaskStats)
  from rate_near_exact[OF le t0 lt] show ?thesis
    unfolding Let_def r n_completed_def[symmetric] n_total_def[symmetric] using t0 by simp
qed

lemma few_tasks_counts: "length (filter row_completed few_tasks) = 1 \<and> length few_tasks = 3"
  by (simp add: few_tasks_def done_row_def open_row_def)

lemma third_not_tie: "(1 / 3 * 100 :: rat) + 1 / 2 \<notin> \<int>"
proof
  assume "(1 / 3 * 100 :: rat) + 1 / 2 \<in> \<int>"
  then obtain k :: int where "(1 / 3 * 100 :: rat) + 1 / 2 = of_int k"
    by (auto elim: Ints_cases)
  then have "(of_int 203 :: rat) = of_int (6 * k)" by simp
  then have "203 = 6 * k" by (simp only: of_int_eq_iff)
  then show False by presburger
qed

lemma third_rate_exact: "round (1 / 3 * 100 :: rat) = 33"
  by (simp add: round_def floor_eq_iff)

text \<open>Twenty-three of forty tasks completed: exactly 57.5 percent, a tie; the double
  product is 57.49999999999999, just below it, and the rate is 57, one below the exactly
  rounded 58. One of three tasks completed is no tie, and the rate is the exactly rounded
  33. No task gives 0.\<close>

theorem task_completion_rate_witness:
  "length sample_tasks < 2 ^ 32
   \<and> (of_nat (length (filter row_completed sample_tasks)) / of_nat (length sample_tasks) * 100 :: rat) + 1 / 2 \<in> \<int>
   \<and> taskCompletionRate (loadTaskStats sample_parse 0 (Some sample_tasks) initial_analytics)
       = round (of_nat (length (filter row_completed sample_tasks)) / of_nat (length sample_tasks) * 100 :: rat) - 1
   \<and> (of_nat (length (filter row_completed few_tasks)) / of_nat (length few_tasks) * 100 :: rat) + 1 / 2 \<notin> \<int>
   \<and> taskCompletionRate (loadTaskStats sample_parse 0 (Some few_tasks) initial_analytics) = 33
   \<and> taskCompletionRate (loadTaskStats sample_parse 0 (Some []) initial_analytics) = 0"
proof -
  have small: "length sample_tasks < 2 ^ 32" using sample_tasks_counts by simp
  have tie: "(of_nat (length (filter row_completed sample_tasks)) / of_nat (length sample_tasks) * 100 :: rat)
               + 1 / 2 \<in> \<int>"
  proof -
    have "(of_nat 23 / of_nat 40 * 100 :: rat) + 1 / 2 = of_int 58" by simp
    then have "(of_nat 23 / of_nat 40 * 100 :: rat) + 1 / 2 \<in> \<int>" by (simp only: Ints_of_int)
    then show ?thesis using sample_tasks_counts by simp
  qed
  have few: "length few_tasks < 2 ^ 32" using few_tasks_counts by simp
  have no_tie: "(of_nat (length (filter row_completed few_tasks)) / of_nat (length few_tasks) * 100 :: rat)
                  + 1 / 2 \<notin> \<int>"
    using third_not_tie few_tasks_counts by simp
  have empty: "taskCompletionRate (loadTaskStats sample_parse 0 (Some []) initial_analytics) = 0"
    using task_completion_rate [of "[]" sample_parse 0 initial_analytics] by (simp add: Let_def)
  have third: "taskCompletionRate (loadTaskStats sample_parse 0 (Some few_tasks) initial_analytics) = 33"
    using task_completion_rate [OF few, of sample_parse 0 initial_analytics] no_tie third_rate_exact
      few_tasks_counts
    by (simp add: Let_def)
  have "taskCompletionRate (loadTaskStats sample_parse 0 (Some sample_tasks) initial_analytics)
          = round (of_nat (length (filter row_completed sample_tasks)) / of_nat (length sample_tasks) * 100 :: rat) - 1"
    using task_completion_rate [OF small, of sample_parse 0 initial_analytics] tie
      sample_rate [of sample_parse 0 initial_analytics] sample_rate_exact sample_tasks_counts
    by (simp add: Let_def)
  with small tie no_tie third empty show ?thesis by simp
qed

text \<open>The claim as the specification words it, with the exact quotient and product, fails
  on these forty tasks: the screen shows 57, the exactly rounded percentage is 58.\<close>

theorem task_completion_rate_counterexample:
  "taskCompletionRate (loadTaskStats sample_parse 0 (Some sample_tasks) initial_analytics) = 57
   \<and> round (of_nat (length (filter row_completed sample_tasks)) / of_nat (length sample_tasks) * 100 :: rat) = 58"
  using sample_rate [of sample_parse 0 initial_analytics] sample_rate_exact sample_tasks_counts
  by simp

section \<open>Properties of the patients filter\<close>

lemma includes_str_iff_sublist: "includes_str s t \<longleftrightarrow> sublist t s"
  by (induction s) (auto simp: sublist_Cons_right)



subsection \<open>Lower-casing a plain string\<close>







subsection \<open>The sample searches\<close>


lemma sample_filtered:
  "filteredPatients (filterPatients sample_unicode sample_patients_screen)
     = [sample_patient (js ''Cy Hann'') (js ''cy@z.au'') (js ''AU'')]"
proof -
  have l: "toLowerCase sample_unicode (js ''ANN'') = js ''ann''"
    "toLowerCase sample_unicode (js ''Ann Lee'') = js ''ann lee''"
    "toLowerCase sample_unicode (js ''Bo Chan'') = js ''bo chan''"
    "toLowerCase sample_unicode (js ''Cy Hann'') = js ''cy hann''"
    "toLowerCase sample_unicode (js ''ann@x.nz'') = js ''ann@x.nz''"
    "toLowerCase sample_unicode (js ''bo@y.au'') = js ''bo@y.au''"
    "toLowerCase sample_unicode (js ''cy@z.au'') = js ''cy@z.au''"
    by (simp_all add: toLowerCase_def js_def is_high_surrogate_def lower_mapping_def sample_unicode_def
        code_units_def code_units_of_def)
  show ?thesis
    by (simp add: filterPatients_def sample_patients_screen_def sample_patient_def Let_def l)
      (simp add: js_def)
qed







text \<open>
  C10. For every loaded patient list, when the search query is the empty string and the
  selected region is 'all', the filter returns the loaded list unchanged; and for every
  query and region, the filtered list is a subsequence of the loaded list.
\<close>

theorem filterPatients_subseq:
  "(searchQuery st = [] \<and> selectedRegion st = js ''all'' \<longrightarrow> filteredPatients (filterPatients u st) = patients st)
   \<and> subseq (filteredPatients (filterPatients u st)) (patients st)"
  by (auto simp: filterPatients_def Let_def
      intro: subseq_order.trans[OF subseq_filter_left subseq_filter_left])

theorem filterPatients_subseq_witness:
  "searchQuery (sample_patients_screen\<lparr>searchQuery := [], selectedRegion := js ''all''\<rparr>) = []
   \<and> selectedRegion (sample_patients_screen\<lparr>searchQuery := [], selectedRegion := js ''all''\<rparr>) = js ''all''
   \<and> filteredPatients (filterPatients sample_unicode
        (sample_patients_screen\<lparr>searchQuery := [], selectedRegion := js ''all''\<rparr>))
       = patients sample_patients_screen
   \<and> subseq [sample_patient (js ''Cy Hann'') (js ''cy@z.au'') (js ''AU'')] (patients sample_patients_screen)"
  using filterPatients_subseq [of "sample_patients_screen\<lparr>searchQuery := [], selectedRegion := js ''all''\<rparr>"
      sample_unicode]
    filterPatients_subseq [of sample_patients_screen sample_unicode] sample_filtered
  by simp

section \<open>Properties of the sign-in and sign-up forms\<close>

lemma sample_signin_form_valid: "signin_validateForm sample_signin_form = (sample_signin_form, True)"
  by (simp add: signin_validateForm_def sample_signin_form_def initial_signin_screen_def
      no_signin_errors_def email_regex_def is_whitespace_def Let_def)

lemma sample_signup_form_valid: "signup_validateForm sample_signup_form = (sample_signup_form, True)"
  by (simp add: signup_validateForm_def sample_signup_form_def initial_signup_screen_def
      no_signup_errors_def email_regex_def is_whitespace_def trim_def Let_def)

text \<open>
  C3. For every sign-in submission in which the password field is the empty string, the
  screen sets the field-level error "Password is required" and makes no call to the
  identity provider.
\<close>

theorem signin_empty_password:
  assumes "signin_password st = []"
  shows "password_error (signin_errors (fst (handleSignIn signIn st))) = Some ''Password is required''
         \<and> calls (snd (handleSignIn signIn st)) = []"
  using assms by (simp add: handleSignIn_def signin_validateForm_def no_signin_errors_def Let_def)

theorem signin_empty_password_witness:
  "signin_password (sample_signin_form\<lparr>signin_password := []\<rparr>) = []
   \<and> password_error (signin_errors (fst (handleSignIn (\<lambda>email. accepts)
        (sample_signin_form\<lparr>signin_password := []\<rparr>)))) = Some ''Password is required''
   \<and> calls (snd (handleSignIn (\<lambda>email. accepts) (sample_signin_form\<lparr>signin_password := []\<rparr>))) = []
   \<and> calls (snd (handleSignIn (\<lambda>email. accepts) sample_signin_form)) = [(''a@b.c'', ''secret'')]"
proof -
  have sent: "calls (snd (handleSignIn (\<lambda>email. accepts) sample_signin_form)) = [(''a@b.c'', ''secret'')]"
    by (simp add: handleSignIn_def sample_signin_form_valid accepts_def Let_def)
      (simp add: sample_signin_form_def)
  show ?thesis
    using signin_empty_password [of "sample_signin_form\<lparr>signin_password := []\<rparr>" "\<lambda>email. accepts"] sent
    by simp
qed

text \<open>
  C8. For every sign-up submission in which the password field is non-empty but shorter than
  8 characters (code units, the \<^verbatim>\<open>.length\<close> the source tests), the screen sets the
  field-level error "Password must be at least 8 characters" and makes no call to the
  identity provider.
\<close>

theorem signup_short_password:
  assumes "signup_password st \<noteq> []" and "length (signup_password st) < 8"
  shows "signup_password_error (signup_errors (fst (handleSignUp signUp st)))
           = Some ''Password must be at least 8 characters''
         \<and> calls (snd (handleSignUp signUp st)) = []"
  using assms by (simp add: handleSignUp_def signup_validateForm_def no_signup_errors_def Let_def)

theorem signup_short_password_witness:
  "signup_password (sample_signup_form\<lparr>signup_password := ''abcdefg'', confirmPassword := ''abcdefg''\<rparr>) \<noteq> []
   \<and> length (signup_password (sample_signup_form\<lparr>signup_password := ''abcdefg'', confirmPassword := ''abcdefg''\<rparr>)) < 8
   \<and> signup_password_error (signup_errors (fst (handleSignUp accepts
        (sample_signup_form\<lparr>signup_password := ''abcdefg'', confirmPassword := ''abcdefg''\<rparr>))))
       = Some ''Password must be at least 8 characters''
   \<and> calls (snd (handleSignUp accepts
        (sample_signup_form\<lparr>signup_password := ''abcdefg'', confirmPassword := ''abcdefg''\<rparr>))) = []
   \<and> length (calls (snd (handleSignUp accepts sample_signup_form))) = 1"
proof -
  have sent: "length (calls (snd (handleSignUp accepts sample_signup_form))) = 1"
    by (simp add: handleSignUp_def sample_signup_form_valid accepts_def Let_def)
  show ?thesis
    using signup_short_password [of "sample_signup_form\<lparr>signup_password := ''abcdefg'', confirmPassword := ''abcdefg''\<rparr>" accepts]
      sent
    by simp
qed

text \<open>
  C4, as the code has it. For every sign-up submission in which the password field and the
  confirmation field hold different strings, submission is blocked: the form does not
  validate and no call is made. The confirmation field shows "Passwords do not match" when
  the confirmation is non-empty, and "Please confirm your password" when it is empty.
\<close>

theorem signup_mismatch:
  assumes "signup_password st \<noteq> confirmPassword st"
  shows "confirmPassword_error (signup_errors (fst (handleSignUp signUp st)))
           = Some (if confirmPassword st = [] then ''Please confirm your password'' else ''Passwords do not match'')
         \<and> \<not> snd (signup_validateForm st)
         \<and> calls (snd (handleSignUp signUp st)) = []"
  using assms by (simp add: handleSignUp_def signup_validateForm_def no_signup_errors_def Let_def)

theorem signup_mismatch_witness:
  "signup_password (sample_signup_form\<lparr>confirmPassword := ''abcdefgX''\<rparr>)
     \<noteq> confirmPassword (sample_signup_form\<lparr>confirmPassword := ''abcdefgX''\<rparr>)
   \<and> confirmPassword_error (signup_errors (fst (handleSignUp accepts
        (sample_signup_form\<lparr>confirmPassword := ''abcdefgX''\<rparr>)))) = Some ''Passwords do not match''
   \<and> calls (snd (handleSignUp accepts (sample_signup_form\<lparr>confirmPassword := ''abcdefgX''\<rparr>))) = []"
proof -
  have differ: "signup_password (sample_signup_form\<lparr>confirmPassword := ''abcdefgX''\<rparr>)
     \<noteq> confirmPassword (sample_signup_form\<lparr>confirmPassword := ''abcdefgX''\<rparr>)"
    by (simp add: sample_signup_form_def)
  from signup_mismatch [OF differ, of accepts] differ show ?thesis by simp
qed

text \<open>The claim as the specification words it fails when the confirmation is left empty:
  the fields differ, and the message is "Please confirm your password".\<close>

theorem signup_mismatch_counterexample:
  "signup_password (sample_signup_form\<lparr>confirmPassword := []\<rparr>)
     \<noteq> confirmPassword (sample_signup_form\<lparr>confirmPassword := []\<rparr>)
   \<and> confirmPassword_error (signup_errors (fst (handleSignUp accepts
        (sample_signup_form\<lparr>confirmPassword := []\<rparr>)))) = Some ''Please confirm your password''
   \<and> confirmPassword_error (signup_errors (fst (handleSignUp accepts
        (sample_signup_form\<lparr>confirmPassword := []\<rparr>)))) \<noteq> Some ''Passwords do not match''"
  by (simp add: handleSignUp_def signup_validateForm_def no_signup_errors_def Let_def
      sample_signup_form_def initial_signup_screen_def)

text \<open>
  C6, as the code has it. For every error the sign-in call resolves with (on a form that
  validates), the screen shows: "Invalid email or password. Please try again." when the
  message contains 'Invalid login credentials' or 'Invalid email or password'; otherwise the
  confirm-your-account message when it contains 'Email not confirmed'; otherwise the message
  unchanged when it is non-empty; and "Sign in failed. Please try again." when the message
  is missing or empty.
\<close>

theorem signin_error_surfaced:
  assumes "snd (signin_validateForm st)"
    and "signIn (signin_email st) (signin_password st) = Resolved (Some (AuthError m))"
  shows "general_error (signin_errors (fst (handleSignIn signIn st))) =
     Some (if \<exists>s. m = Some s \<and> (sublist ''Invalid login credentials'' s \<or> sublist ''Invalid email or password'' s)
             then ''Invalid email or password. Please try again.''
           else if \<exists>s. m = Some s \<and> sublist ''Email not confirmed'' s
             then ''Please check your email and confirm your account before signing in.''
           else case m of
               Some s \<Rightarrow> if s = [] then ''Sign in failed. Please try again.'' else s
             | None \<Rightarrow> ''Sign in failed. Please try again.'')"
proof -
  obtain st' where v: "signin_validateForm st = (st', True)" and e: "signin_email st' = signin_email st"
    "signin_password st' = signin_password st"
    using assms(1) by (cases "signin_validateForm st") (auto simp: signin_validateForm_def Let_def)
  show ?thesis
    using assms(2)
    by (cases m) (simp_all add: handleSignIn_def v e Let_def signin_error_text_def includes_str_iff_sublist)
qed

text \<open>A message with a known phrase is replaced, another message is shown as it is.\<close>

theorem signin_error_surfaced_witness:
  "snd (signin_validateForm sample_signin_form)
   \<and> general_error (signin_errors (fst (handleSignIn (rejects_with ''AuthApiError: Invalid login credentials'')
        sample_signin_form))) = Some ''Invalid email or password. Please try again.''
   \<and> general_error (signin_errors (fst (handleSignIn (rejects_with ''Network request failed'')
        sample_signin_form))) = Some ''Network request failed''"
proof -
  have valid: "snd (signin_validateForm sample_signin_form)" by (simp add: sample_signin_form_valid)
  have known: "sublist ''Invalid login credentials'' ''AuthApiError: Invalid login credentials''"
    by (simp add: includes_str_iff_sublist [symmetric])
  have unknown: "\<not> sublist ''Invalid login credentials'' ''Network request failed''"
    "\<not> sublist ''Invalid email or password'' ''Network request failed''"
    "\<not> sublist ''Email not confirmed'' ''Network request failed''"
    by (simp_all add: includes_str_iff_sublist [symmetric])
  have "general_error (signin_errors (fst (handleSignIn (rejects_with ''AuthApiError: Invalid login credentials'')
        sample_signin_form))) = Some ''Invalid email or password. Please try again.''"
    using signin_error_surfaced [OF valid, of "rejects_with ''AuthApiError: Invalid login credentials''"
        "Some ''AuthApiError: Invalid login credentials''"] known
    by (simp add: rejects_with_def)
  moreover have "general_error (signin_errors (fst (handleSignIn (rejects_with ''Network request failed'')
        sample_signin_form))) = Some ''Network request failed''"
    using signin_error_surfaced [OF valid, of "rejects_with ''Network request failed''"
        "Some ''Network request failed''"] unknown
    by (simp add: rejects_with_def)
  ultimately show ?thesis using valid by simp
qed

text \<open>The claim as the specification words it fails on an error with an empty message: it
  contains none of the phrases, and the screen shows the fallback text, not the message.\<close>

theorem signin_error_surfaced_counterexample:
  "snd (signin_validateForm sample_signin_form)
   \<and> \<not> includes_str [] ''Invalid login credentials''
   \<and> \<not> includes_str [] ''Invalid email or password''
   \<and> \<not> includes_str [] ''Email not confirmed''
   \<and> general_error (signin_errors (fst (handleSignIn (rejects_with []) sample_signin_form)))
       = Some ''Sign in failed. Please try again.''
   \<and> general_error (signin_errors (fst (handleSignIn (rejects_with []) sample_signin_form))) \<noteq> Some []"
  by (simp add: handleSignIn_def sample_signin_form_valid rejects_with_def signin_error_text_def Let_def)

end
